theory Spec2Isabelle
  imports Main "HOL-Library.Word"
begin

section \<open>Data model of \<^verbatim>\<open>nucypher/characters/lawful.py\<close>\<close>

text \<open>
  Python \<^verbatim>\<open>bytes\<close> are lists of 8-bit words, Python \<^verbatim>\<open>str\<close> values are
  strings, Python's unbounded integers are \<^typ>\<open>int\<close> (or \<^typ>\<open>nat\<close> where the source
  reads an unsigned field). Every \<^verbatim>\<open>raise\<close> of the source is a value of the type
  \<open>error\<close>, and a function that can raise returns \<open>error + 'a\<close> with \<open>Inl\<close> for the
  exception.
\<close>

type_synonym bytes = "8 word list"
type_synonym node_id = string
type_synonym map_id = string
type_synonym arrangement_id = bytes

datatype capsule = Capsule bytes

datatype cfrag = CFrag bytes

record ursula =
  checksum_public_address :: node_id
  rest_host :: string
  rest_port :: nat

text \<open>
  \<^verbatim>\<open>IndisputableEvidence(capsule, cfrag, ursula)\<close>, built by \<^verbatim>\<open>Bob.collect_evidence\<close>.
  The class lives in \<^verbatim>\<open>nucypher.policy.models\<close>; the three constructor arguments are
  what the source passes.
\<close>

record indisputable_evidence =
  evidence_capsule :: capsule
  evidence_cfrag :: cfrag
  evidence_ursula :: ursula

text \<open>
  The message of \<^verbatim>\<open>Ursula.IsFromTheFuture\<close>. The two templates
  \<^verbatim>\<open>unknown_version_message\<close> and \<^verbatim>\<open>really_unknown_version_message\<close> are class
  attributes declared outside the source file, so a message is kept as the template that was
  formatted together with the arguments given to \<^verbatim>\<open>format\<close>, in the source's order.
\<close>

datatype message =
    Unknown_version_message string nat nat
  | Really_unknown_version_message nat nat

text \<open>Exceptions of the network middleware, which the characters catch selectively.\<close>

datatype net_error =
    ConnectTimeout
  | NodeSeemsToBeDown
  | NotFound
  | UnexpectedResponse
  | OtherNetworkError string

datatype error =
    ValueError
  | KeyError
  | IndexError
  | AttributeError
  | NotImplementedError
  | BytestringSplittingError
  | InvalidSignature
  | NotEnoughTeachers
  | NotEnoughUrsulas
  | NowhereToBeFound
  | IsFromTheFuture message
  | IncorrectCFragReceived indisputable_evidence
  | NetworkError net_error
  | ExternalError string

subsection \<open>Treasure maps and the choice between a map and a map id\<close>

text \<open>
  A \<^verbatim>\<open>TreasureMap\<close> is iterated by \<^verbatim>\<open>generate_work_orders\<close> as pairs
  \<^verbatim>\<open>(node_id, arrangement_id)\<close>, in the stored order of its destinations, and
  \<^verbatim>\<open>follow_treasure_map\<close> reads its threshold \<^verbatim>\<open>m\<close>.
\<close>

record treasure_map =
  destinations :: "(node_id \<times> arrangement_id) list"
  tmap_m :: nat

text \<open>
  Python's truth value of the two optional arguments. \<^verbatim>\<open>None\<close> is false and a string
  is true when it is not empty. The class \<^verbatim>\<open>TreasureMap\<close> is declared in
  \<^verbatim>\<open>nucypher.policy.models\<close>; it is taken as sized by its destinations, so that a map is
  true when it has at least one destination.
\<close>

definition truthy_treasure_map :: "treasure_map \<Rightarrow> bool" where
  "truthy_treasure_map t = (destinations t \<noteq> [])"



text \<open>\<^verbatim>\<open>self.treasure_maps[map_id]\<close>: a dictionary lookup, \<^verbatim>\<open>KeyError\<close> when absent.\<close>

definition lookup_treasure_map :: "(map_id \<rightharpoonup> treasure_map) \<Rightarrow> map_id \<Rightarrow> error + treasure_map" where
  "lookup_treasure_map treasure_maps i =
     (case treasure_maps i of None \<Rightarrow> Inl KeyError | Some t \<Rightarrow> Inr t)"

text \<open>
  \<^verbatim>\<open>Bob._pick_treasure_map(treasure_map=None, map_id=None)\<close>, lines 375 to 383. The
  first argument is Bob's \<^verbatim>\<open>treasure_maps\<close> dictionary.
\<close>

fun pick_treasure_map ::
  "(map_id \<rightharpoonup> treasure_map) \<Rightarrow> treasure_map option \<Rightarrow> map_id option \<Rightarrow> error + treasure_map" where
  "pick_treasure_map treasure_maps None None = Inl ValueError"
| "pick_treasure_map treasure_maps None (Some i) =
     (if i \<noteq> [] then lookup_treasure_map treasure_maps i else Inl ValueError)"
| "pick_treasure_map treasure_maps (Some t) None =
     (if \<not> truthy_treasure_map t then Inl ValueError else Inr t)"
| "pick_treasure_map treasure_maps (Some t) (Some i) =
     (if \<not> truthy_treasure_map t then
        (if i \<noteq> [] then lookup_treasure_map treasure_maps i else Inl ValueError)
      else if i \<noteq> [] then Inl ValueError
      else Inr t)"

subsection \<open>Policy identifiers\<close>

text \<open>\<^verbatim>\<open>bytes.hex()\<close>: two lower-case hexadecimal digits per byte.\<close>

definition hex_digit :: "nat \<Rightarrow> char" where
  "hex_digit d = ''0123456789abcdef'' ! (d mod 16)"

fun hex :: "bytes \<Rightarrow> string" where
  "hex [] = []"
| "hex (b # bs) = hex_digit (unat b div 16) # hex_digit (unat b mod 16) # hex bs"

text \<open>
  \<^verbatim>\<open>Bob.construct_policy_hrac\<close> and \<^verbatim>\<open>Bob.construct_hrac_and_map_id\<close>, lines 474 to
  480. \<^verbatim>\<open>keccak_digest\<close> is imported from \<^verbatim>\<open>nucypher.crypto.api\<close> and is a parameter
  here; \<open>stamp\<close> is the byte string of \<^verbatim>\<open>self.stamp\<close> and \<open>verifying_key\<close> that of
  \<^verbatim>\<open>bytes(verifying_key)\<close>.
\<close>

definition construct_policy_hrac :: "(bytes \<Rightarrow> bytes) \<Rightarrow> bytes \<Rightarrow> bytes \<Rightarrow> bytes \<Rightarrow> bytes" where
  "construct_policy_hrac keccak_digest stamp verifying_key label =
     keccak_digest (verifying_key @ stamp @ label)"

definition construct_hrac_and_map_id ::
  "(bytes \<Rightarrow> bytes) \<Rightarrow> bytes \<Rightarrow> bytes \<Rightarrow> bytes \<Rightarrow> bytes \<times> map_id" where
  "construct_hrac_and_map_id keccak_digest stamp verifying_key label =
     (let hrac = construct_policy_hrac keccak_digest stamp verifying_key label;
          map_id = hex (keccak_digest (verifying_key @ hrac))
      in (hrac, map_id))"

subsection \<open>Fetching a treasure map from the known nodes\<close>

text \<open>The HTTP response of the middleware: \<^verbatim>\<open>status_code\<close> and \<^verbatim>\<open>content\<close>.\<close>

record response =
  status_code :: nat
  content :: bytes

text \<open>
  \<^verbatim>\<open>Bob.get_treasure_map_from_known_ursulas\<close>, lines 482 to 507. The node list is the
  result of \<^verbatim>\<open>self.known_nodes.shuffled()\<close>. The two callees are parameters:
  \<open>get_treasure_map_from_node\<close> is the middleware's request, which raises a network
  exception or returns a response, and \<open>treasure_map_from_bytes\<close> is
  \<^verbatim>\<open>TreasureMap.from_bytes\<close>. Only \<^verbatim>\<open>NodeSeemsToBeDown\<close> is caught; the \<^verbatim>\<open>else\<close> of
  the \<^verbatim>\<open>for\<close> raises \<^verbatim>\<open>NowhereToBeFound\<close>.
\<close>

fun get_treasure_map_from_known_ursulas ::
  "(ursula \<Rightarrow> map_id \<Rightarrow> net_error + response) \<Rightarrow> (bytes \<Rightarrow> error + treasure_map) \<Rightarrow>
   ursula list \<Rightarrow> map_id \<Rightarrow> error + treasure_map" where
  "get_treasure_map_from_known_ursulas get_treasure_map_from_node treasure_map_from_bytes [] i =
     Inl NowhereToBeFound"
| "get_treasure_map_from_known_ursulas get_treasure_map_from_node treasure_map_from_bytes
     (node # nodes) i =
     (case get_treasure_map_from_node node i of
        Inl e \<Rightarrow>
          if e = NodeSeemsToBeDown then
            get_treasure_map_from_known_ursulas get_treasure_map_from_node
              treasure_map_from_bytes nodes i
          else Inl (NetworkError e)
      | Inr r \<Rightarrow>
          if status_code r = 200 \<and> content r \<noteq> [] then treasure_map_from_bytes (content r)
          else get_treasure_map_from_known_ursulas get_treasure_map_from_node
                 treasure_map_from_bytes nodes i)"

text \<open>A node serves the map when it answers with status 200 and a non-empty body.\<close>

definition serves_map :: "(ursula \<Rightarrow> map_id \<Rightarrow> net_error + response) \<Rightarrow> map_id \<Rightarrow> ursula \<Rightarrow> bool" where
  "serves_map get_treasure_map_from_node i node =
     (case get_treasure_map_from_node node i of
        Inl e \<Rightarrow> False
      | Inr r \<Rightarrow> status_code r = 200 \<and> content r \<noteq> [])"

text \<open>A node is skipped when it seems to be down or answers without serving the map.\<close>

definition skipped_node :: "(ursula \<Rightarrow> map_id \<Rightarrow> net_error + response) \<Rightarrow> map_id \<Rightarrow> ursula \<Rightarrow> bool" where
  "skipped_node get_treasure_map_from_node i node =
     (case get_treasure_map_from_node node i of
        Inl e \<Rightarrow> e = NodeSeemsToBeDown
      | Inr r \<Rightarrow> \<not> (status_code r = 200 \<and> content r \<noteq> []))"

subsection \<open>Decoding node records\<close>

text \<open>
  \<^verbatim>\<open>BytestringSplitter((int, 2, {"byteorder": "big"}))\<close> called with
  \<^verbatim>\<open>return_remainder=True\<close>: the leading two bytes as a big-endian unsigned integer and
  the rest; \<^verbatim>\<open>BytestringSplittingError\<close> when fewer than two bytes are there.
\<close>

fun version_splitter :: "bytes \<Rightarrow> error + (nat \<times> bytes)" where
  "version_splitter (b0 # b1 # payload) = Inr (256 * unat b0 + unat b1, payload)"
| "version_splitter bs = Inl BytestringSplittingError"

text \<open>
  Modelled from the spec: \<^verbatim>\<open>PUBLIC_ADDRESS_LENGTH\<close> is imported from
  \<^verbatim>\<open>nucypher.crypto.constants\<close>; the spec gives addresses as 20 bytes.
\<close>

definition PUBLIC_ADDRESS_LENGTH :: nat where
  "PUBLIC_ADDRESS_LENGTH = 20"

text \<open>
  \<^verbatim>\<open>BytestringSplitter(PUBLIC_ADDRESS_LENGTH)(payload, return_remainder=True)\<close>: the
  leading address and the rest, or \<^verbatim>\<open>BytestringSplittingError\<close> on a shorter payload.
\<close>

definition address_splitter :: "bytes \<Rightarrow> error + (bytes \<times> bytes)" where
  "address_splitter payload =
     (if length payload < PUBLIC_ADDRESS_LENGTH then Inl BytestringSplittingError
      else Inr (take PUBLIC_ADDRESS_LENGTH payload, drop PUBLIC_ADDRESS_LENGTH payload))"

text \<open>
  What \<^verbatim>\<open>Ursula.from_bytes\<close> takes from outside the source file: the class constant
  \<^verbatim>\<open>LEARNER_VERSION\<close>, \<^verbatim>\<open>eth_utils.to_checksum_address\<close>, the nickname that
  \<^verbatim>\<open>nickname_from_seed\<close> returns first, and the decoding of a payload of a supported
  version (\<^verbatim>\<open>internal_splitter\<close> followed by \<^verbatim>\<open>from_public_keys\<close>, lines 1039 to 1057),
  which takes the payload and \<^verbatim>\<open>federated_only\<close>.
\<close>

record node_codec =
  LEARNER_VERSION :: nat
  to_checksum_address :: "bytes \<Rightarrow> string"
  nickname_from_seed :: "string \<Rightarrow> string"
  node_from_payload :: "bytes \<Rightarrow> bool \<Rightarrow> error + ursula"

text \<open>
  The display name of line 1031: the nickname between the two harpoons U+21C0 and U+21BD
  (here as their UTF-8 bytes), a space, and the checksum address in parentheses.
\<close>

definition harpoon_right :: string where
  "harpoon_right = [char_of (0xE2 :: nat), char_of (0x87 :: nat), char_of (0x80 :: nat)]"

definition harpoon_left :: string where
  "harpoon_left = [char_of (0xE2 :: nat), char_of (0x86 :: nat), char_of (0xBD :: nat)]"

definition display_name :: "string \<Rightarrow> string \<Rightarrow> string" where
  "display_name nickname checksum_address =
     harpoon_right @ nickname @ harpoon_left @ '' ('' @ checksum_address @ '')''"

text \<open>
  The message built when the version is from the future, lines 1027 to 1034: with the
  salvaged address when the payload has one, without it when splitting fails.
\<close>

definition future_message :: "node_codec \<Rightarrow> nat \<Rightarrow> bytes \<Rightarrow> message" where
  "future_message codec version payload =
     (case address_splitter payload of
        Inr (canonical_address, rest) \<Rightarrow>
          (let checksum_address = to_checksum_address codec canonical_address;
               nickname = nickname_from_seed codec checksum_address
           in Unknown_version_message (display_name nickname checksum_address) version
                (LEARNER_VERSION codec))
      | Inl e \<Rightarrow> Really_unknown_version_message version (LEARNER_VERSION codec))"

text \<open>
  \<^verbatim>\<open>Ursula.from_bytes(ursula_as_bytes, version, federated_only)\<close>, lines 1013 to 1057.
  The version argument is \<open>None\<close> for the default \<^verbatim>\<open>INCLUDED_IN_BYTESTRING\<close>.
\<close>

definition from_bytes :: "node_codec \<Rightarrow> bytes \<Rightarrow> nat option \<Rightarrow> bool \<Rightarrow> error + ursula" where
  "from_bytes codec ursula_as_bytes version_arg federated_only =
     (case (case version_arg of
              None \<Rightarrow> version_splitter ursula_as_bytes
            | Some v \<Rightarrow> Inr (v, ursula_as_bytes)) of
        Inl e \<Rightarrow> Inl e
      | Inr (version, payload) \<Rightarrow>
          if version > LEARNER_VERSION codec then
            Inl (IsFromTheFuture (future_message codec version payload))
          else node_from_payload codec payload federated_only)"




subsection \<open>Waiting for nodes to become known\<close>

text \<open>
  Modelled from the spec: \<^verbatim>\<open>Learner.block_until_specific_nodes_are_known\<close> is defined in
  \<^verbatim>\<open>nucypher.characters.base\<close>. The spec has it block until the addressed proxies are
  known, tolerating \<^verbatim>\<open>allow_missing\<close> missing ones, and the docstring of
  \<^verbatim>\<open>follow_treasure_map\<close> has it raise when more than \<^verbatim>\<open>allow_missing\<close> nodes are still
  unknown after the timeout. The learning that goes on while the caller waits is given as
  the successive contents of \<^verbatim>\<open>known_nodes\<close> up to the deadline, the first being the
  content at the call. The wait returns with the first content that leaves at most
  \<^verbatim>\<open>allow_missing\<close> of the addresses unknown and raises \<^verbatim>\<open>NotEnoughTeachers\<close> when the
  deadline passes before.
\<close>

definition unknown_addresses :: "(node_id \<rightharpoonup> ursula) \<Rightarrow> node_id list \<Rightarrow> node_id list" where
  "unknown_addresses known addresses = filter (\<lambda>a. known a = None) (remdups addresses)"

definition known_addresses :: "(node_id \<rightharpoonup> ursula) \<Rightarrow> node_id list \<Rightarrow> node_id list" where
  "known_addresses known addresses = filter (\<lambda>a. known a \<noteq> None) (remdups addresses)"

fun block_until_specific_nodes_are_known ::
  "(node_id \<rightharpoonup> ursula) list \<Rightarrow> node_id list \<Rightarrow> int \<Rightarrow> error + (node_id \<rightharpoonup> ursula)" where
  "block_until_specific_nodes_are_known [] addresses allow_missing = Inl NotEnoughTeachers"
| "block_until_specific_nodes_are_known (known # later) addresses allow_missing =
     (if int (length (unknown_addresses known addresses)) \<le> allow_missing then Inr known
      else block_until_specific_nodes_are_known later addresses allow_missing)"

subsection \<open>Bob: work orders and retrieval\<close>

text \<open>
  A \<^verbatim>\<open>WorkOrder\<close> as \<^verbatim>\<open>WorkOrder.construct_by_bob(arrangement_id, capsules, ursula, bob)\<close>
  builds it: one task per capsule, for one proxy.
\<close>

record work_order =
  wo_arrangement_id :: arrangement_id
  wo_capsules :: "capsule list"
  wo_ursula :: ursula

definition construct_by_bob :: "arrangement_id \<Rightarrow> capsule list \<Rightarrow> ursula \<Rightarrow> work_order" where
  "construct_by_bob a capsules u =
     \<lparr>wo_arrangement_id = a, wo_capsules = capsules, wo_ursula = u\<rparr>"

text \<open>
  Modelled from the spec: \<^verbatim>\<open>WorkOrderHistory\<close> (the type of
  \<^verbatim>\<open>self._saved_work_orders\<close>) is defined in \<^verbatim>\<open>nucypher.policy.models\<close>; the spec describes
  it as a per-proxy history keyed by capsule. A proxy without history reads as the empty
  dictionary.
\<close>

type_synonym work_order_history = "node_id \<Rightarrow> capsule \<rightharpoonup> work_order"

text \<open>
  The part of Bob's state that work orders and retrieval read and write, together with
  the two effects a retrieval has outside Bob: the cfrags attached to each capsule
  (\<^verbatim>\<open>capsule._attached_cfrags\<close>) and the re-encryption requests sent to the network, in
  the order they were sent.
\<close>

record bob =
  stamp :: bytes
  decrypting_key :: bytes
  treasure_maps :: "map_id \<rightharpoonup> treasure_map"
  known_nodes :: "node_id \<rightharpoonup> ursula"
  saved_work_orders :: work_order_history
  attached_cfrags :: "capsule \<Rightarrow> cfrag list"
  reencrypt_calls :: "work_order list"

text \<open>Assignment \<^verbatim>\<open>d[k] = v\<close> to an \<^verbatim>\<open>OrderedDict\<close>: a new key goes last.\<close>

fun ordered_set :: "('k \<times> 'v) list \<Rightarrow> 'k \<Rightarrow> 'v \<Rightarrow> ('k \<times> 'v) list" where
  "ordered_set [] k v = [(k, v)]"
| "ordered_set ((k', v') # kvs) k v =
     (if k' = k then (k, v) # kvs else (k', v') # ordered_set kvs k v)"

text \<open>
  The loop of \<^verbatim>\<open>Bob.generate_work_orders\<close> over the destinations of the map, lines 525 to
  541. After the inner loop the variable \<^verbatim>\<open>capsule\<close> holds the last of \<^verbatim>\<open>capsules\<close>, and
  line 538 saves the work order under that capsule only.
\<close>

fun work_orders_loop ::
  "(node_id \<times> arrangement_id) list \<Rightarrow> capsule list \<Rightarrow> int option \<Rightarrow>
   (node_id \<times> work_order) list \<Rightarrow> bob \<Rightarrow> (error + (node_id \<times> work_order) list) \<times> bob" where
  "work_orders_loop [] capsules num_ursulas generated_work_orders s =
     (Inr generated_work_orders, s)"
| "work_orders_loop ((node, arrangement) # rest) capsules num_ursulas generated_work_orders s =
     (case known_nodes s node of
        None \<Rightarrow> (Inl KeyError, s)
      | Some u \<Rightarrow>
          (let capsules_to_include =
                 filter (\<lambda>c. saved_work_orders s node c = None) capsules;
               work_order = construct_by_bob arrangement capsules_to_include u;
               generated' =
                 (if capsules_to_include \<noteq> [] then
                    ordered_set generated_work_orders node work_order
                  else generated_work_orders);
               s' =
                 (if capsules_to_include \<noteq> [] then
                    s\<lparr>saved_work_orders :=
                        (saved_work_orders s)
                          (node := (saved_work_orders s node)(last capsules \<mapsto> work_order))\<rparr>
                  else s)
           in if num_ursulas = Some (int (length generated')) then (Inr generated', s')
              else work_orders_loop rest capsules num_ursulas generated' s'))"

text \<open>\<^verbatim>\<open>Bob.generate_work_orders(map_id, *capsules, num_ursulas=None)\<close>, lines 509 to 543.\<close>

definition generate_work_orders ::
  "bob \<Rightarrow> map_id \<Rightarrow> capsule list \<Rightarrow> int option \<Rightarrow>
   (error + (node_id \<times> work_order) list) \<times> bob" where
  "generate_work_orders s i capsules num_ursulas =
     (case treasure_maps s i of
        None \<Rightarrow> (Inl KeyError, s)
      | Some treasure_map_to_use \<Rightarrow>
          if \<not> truthy_treasure_map treasure_map_to_use then (Inl ValueError, s)
          else work_orders_loop (destinations treasure_map_to_use) capsules num_ursulas [] s)"

text \<open>
  What a retrieval takes from outside the source file: the keccak digest, the middleware's
  \<^verbatim>\<open>reencrypt\<close> request (a network exception or the returned cfrags), the correctness
  check that \<^verbatim>\<open>capsule.attach_cfrag\<close> runs under the correctness keys
  (delegating, receiving, verifying) set at the start of \<^verbatim>\<open>retrieve\<close>, and
  \<^verbatim>\<open>verify_from(data_source, message_kit, decrypt=True)\<close>, which sees the cfrags attached
  to the capsule and returns the cleartext or raises an exception of its own, given by
  its text.
\<close>

record message_kit =
  kit_capsule :: capsule
  kit_ciphertext :: bytes

record retrieval_env =
  keccak_digest :: "bytes \<Rightarrow> bytes"
  reencrypt :: "work_order \<Rightarrow> net_error + cfrag list"
  cfrag_is_correct :: "bytes \<times> bytes \<times> bytes \<Rightarrow> capsule \<Rightarrow> cfrag \<Rightarrow> bool"
  verify_from :: "bytes \<Rightarrow> message_kit \<Rightarrow> cfrag list \<Rightarrow> string + bytes"

text \<open>
  \<^verbatim>\<open>Bob.get_reencrypted_cfrags(work_order)\<close>, lines 545 to 551: the request, then one
  entry of the history per task of the work order.
\<close>

definition get_reencrypted_cfrags ::
  "retrieval_env \<Rightarrow> work_order \<Rightarrow> bob \<Rightarrow> (net_error + cfrag list) \<times> bob" where
  "get_reencrypted_cfrags env work_order s =
     (let s1 = s\<lparr>reencrypt_calls := reencrypt_calls s @ [work_order]\<rparr> in
      case reencrypt env work_order of
        Inl e \<Rightarrow> (Inl e, s1)
      | Inr cfrags \<Rightarrow>
          (Inr cfrags,
           s1\<lparr>saved_work_orders :=
                fold (\<lambda>c saved.
                        saved(checksum_public_address (wo_ursula work_order) :=
                          (saved (checksum_public_address (wo_ursula work_order)))
                            (c \<mapsto> work_order)))
                  (wo_capsules work_order) (saved_work_orders s1)\<rparr>))"

text \<open>
  Modelled from the spec: \<^verbatim>\<open>capsule.attach_cfrag(cfrag)\<close> belongs to the PRE library. The
  spec has it attach the cfrag after a correctness check and fail when the check rejects;
  \<open>None\<close> is that failure (\<^verbatim>\<open>UmbralCorrectnessError\<close> in the source).
\<close>

definition attach_cfrag ::
  "retrieval_env \<Rightarrow> bytes \<times> bytes \<times> bytes \<Rightarrow> capsule \<Rightarrow> cfrag \<Rightarrow> bob \<Rightarrow> bob option" where
  "attach_cfrag env correctness_keys c cf s =
     (if cfrag_is_correct env correctness_keys c cf then
        Some (s\<lparr>attached_cfrags := (attached_cfrags s)(c := attached_cfrags s c @ [cf])\<rparr>)
      else None)"

text \<open>\<^verbatim>\<open>Bob.collect_evidence(capsule, cfrag, ursula)\<close>, lines 601 to 603.\<close>

definition collect_evidence :: "capsule \<Rightarrow> cfrag \<Rightarrow> ursula \<Rightarrow> indisputable_evidence" where
  "collect_evidence c cf u =
     \<lparr>evidence_capsule = c, evidence_cfrag = cf, evidence_ursula = u\<rparr>"

text \<open>
  The \<^verbatim>\<open>for\<close> loop of \<^verbatim>\<open>Bob.retrieve\<close> with its \<^verbatim>\<open>else\<close>, lines 576 to 595. \<open>Inr ()\<close> is
  the \<^verbatim>\<open>break\<close>; the \<^verbatim>\<open>else\<close> of the loop raises \<^verbatim>\<open>NotEnoughUrsulas\<close>. Only
  \<^verbatim>\<open>ConnectTimeout\<close> is caught around the request, and \<^verbatim>\<open>cfrags[0]\<close> raises
  \<^verbatim>\<open>IndexError\<close> on an empty answer.
\<close>

fun retrieve_loop ::
  "retrieval_env \<Rightarrow> bytes \<times> bytes \<times> bytes \<Rightarrow> capsule \<Rightarrow> nat \<Rightarrow> work_order list \<Rightarrow> bob \<Rightarrow>
   (error + unit) \<times> bob" where
  "retrieve_loop env correctness_keys c m [] s = (Inl NotEnoughUrsulas, s)"
| "retrieve_loop env correctness_keys c m (work_order # work_orders) s =
     (case get_reencrypted_cfrags env work_order s of
        (Inl e, s1) \<Rightarrow>
          if e = ConnectTimeout then retrieve_loop env correctness_keys c m work_orders s1
          else (Inl (NetworkError e), s1)
      | (Inr cfrags, s1) \<Rightarrow>
          (case cfrags of
             [] \<Rightarrow> (Inl IndexError, s1)
           | cf # others \<Rightarrow>
               (case attach_cfrag env correctness_keys c cf s1 of
                  None \<Rightarrow>
                    (Inl (IncorrectCFragReceived (collect_evidence c cf (wo_ursula work_order))),
                     s1)
                | Some s2 \<Rightarrow>
                    if m \<le> length (attached_cfrags s2 c) then (Inr (), s2)
                    else retrieve_loop env correctness_keys c m work_orders s2)))"

text \<open>
  \<^verbatim>\<open>Bob.peek_at_treasure_map\<close>, lines 385 to 403: the unknown and the known destinations
  of the map.
\<close>

definition peek_at_treasure_map ::
  "bob \<Rightarrow> treasure_map option \<Rightarrow> map_id option \<Rightarrow> error + (node_id list \<times> node_id list)" where
  "peek_at_treasure_map s treasure_map_arg map_id_arg =
     (case pick_treasure_map (treasure_maps s) treasure_map_arg map_id_arg of
        Inl e \<Rightarrow> Inl e
      | Inr t \<Rightarrow>
          Inr (unknown_addresses (known_nodes s) (map fst (destinations t)),
               known_addresses (known_nodes s) (map fst (destinations t))))"

text \<open>
  \<^verbatim>\<open>Bob.follow_treasure_map\<close>, lines 405 to 447, without the \<^verbatim>\<open>new_thread\<close> variant
  (which returns a deferred). \<open>learning\<close> is what the learning loop makes of
  \<^verbatim>\<open>known_nodes\<close> while Bob blocks. The timeout is part of \<open>learning\<close>.
\<close>

definition follow_treasure_map ::
  "(node_id \<rightharpoonup> ursula) list \<Rightarrow> bob \<Rightarrow> treasure_map option \<Rightarrow> map_id option \<Rightarrow> bool \<Rightarrow> int \<Rightarrow>
   (error + (node_id list \<times> node_id list \<times> nat)) \<times> bob" where
  "follow_treasure_map learning s treasure_map_arg map_id_arg block allow_missing =
     (case pick_treasure_map (treasure_maps s) treasure_map_arg map_id_arg of
        Inl e \<Rightarrow> (Inl e, s)
      | Inr t \<Rightarrow>
          (case peek_at_treasure_map s (Some t) None of
             Inl e \<Rightarrow> (Inl e, s)
           | Inr (unknown_ursulas, known_ursulas) \<Rightarrow>
               if block then
                 (case block_until_specific_nodes_are_known (known_nodes s # learning)
                         unknown_ursulas allow_missing of
                    Inl e \<Rightarrow> (Inl e, s)
                  | Inr known' \<Rightarrow>
                      (Inr (unknown_ursulas, known_ursulas, tmap_m t),
                       s\<lparr>known_nodes := known'\<rparr>))
               else (Inr (unknown_ursulas, known_ursulas, tmap_m t), s)))"

text \<open>
  \<^verbatim>\<open>Bob.retrieve(message_kit, data_source, alice_verifying_key, label)\<close>, lines 559 to
  599. \<open>policy_pubkey\<close> is \<^verbatim>\<open>data_source.policy_pubkey\<close>.
\<close>

definition retrieve ::
  "retrieval_env \<Rightarrow> (node_id \<rightharpoonup> ursula) list \<Rightarrow> bob \<Rightarrow> message_kit \<Rightarrow> bytes \<Rightarrow> bytes \<Rightarrow> bytes \<Rightarrow>
   (error + bytes list) \<times> bob" where
  "retrieve env learning s kit policy_pubkey alice_verifying_key label =
     (let c = kit_capsule kit;
          correctness_keys = (policy_pubkey, decrypting_key s, alice_verifying_key);
          (hrac, i) =
            construct_hrac_and_map_id (keccak_digest env) (stamp s) alice_verifying_key label
      in case follow_treasure_map learning s None (Some i) True 0 of
           (Inl e, s1) \<Rightarrow> (Inl e, s1)
         | (Inr (unknown_ursulas, known_ursulas, m), s1) \<Rightarrow>
             (case generate_work_orders s1 i [c] None of
                (Inl e, s2) \<Rightarrow> (Inl e, s2)
              | (Inr work_orders, s2) \<Rightarrow>
                  (case retrieve_loop env correctness_keys c m (map snd work_orders) s2 of
                     (Inl e, s3) \<Rightarrow> (Inl e, s3)
                   | (Inr u, s3) \<Rightarrow>
                       (case verify_from env policy_pubkey kit (attached_cfrags s3 c) of
                          Inl e \<Rightarrow> (Inl (ExternalError e), s3)
                        | Inr delivered_cleartext \<Rightarrow> (Inr [delivered_cleartext], s3)))))"



subsection \<open>Alice: revocation\<close>

text \<open>
  What \<^verbatim>\<open>Alice.revoke\<close> reads of an enacted policy: \<^verbatim>\<open>policy.n\<close>,
  \<^verbatim>\<open>policy.treasure_map\<close> and \<^verbatim>\<open>policy.revocation_kit\<close>. The kit maps each revokable
  address to its revocation; \<^verbatim>\<open>revokable_addresses\<close> are its keys.
\<close>

type_synonym revocation = bytes

record policy =
  policy_n :: nat
  policy_treasure_map :: treasure_map
  revocation_kit :: "(node_id \<times> revocation) list"

definition revokable_addresses :: "policy \<Rightarrow> node_id list" where
  "revokable_addresses p = map fst (revocation_kit p)"

text \<open>Line 265, in Python's integers: \<^verbatim>\<open>((policy.n - policy.treasure_map.m) + 1)\<close>.\<close>

definition revocation_threshold :: "policy \<Rightarrow> int" where
  "revocation_threshold p = (int (policy_n p) - int (tmap_m (policy_treasure_map p))) + 1"

text \<open>Line 268: \<^verbatim>\<open>allow_missing=(policy.n - revocation_threshold)\<close>.\<close>

definition revoke_allow_missing :: "policy \<Rightarrow> int" where
  "revoke_allow_missing p = int (policy_n p) - revocation_threshold p"

text \<open>
  The loop of \<^verbatim>\<open>Alice.revoke\<close>, lines 274 to 283, with the dictionary
  \<^verbatim>\<open>failed_revocations\<close> and the revocation requests sent so far as accumulators.
  \<open>revoke_arrangement\<close> is the middleware's request; \<^verbatim>\<open>NotFound\<close> and
  \<^verbatim>\<open>UnexpectedResponse\<close> are recorded, any other exception leaves the loop, and
  \<^verbatim>\<open>self.known_nodes[node_id]\<close> raises \<^verbatim>\<open>KeyError\<close> on an unknown address.
\<close>

fun revoke_loop ::
  "(ursula \<Rightarrow> revocation \<Rightarrow> net_error + response) \<Rightarrow> (node_id \<rightharpoonup> ursula) \<Rightarrow>
   (node_id \<times> revocation) list \<Rightarrow> (node_id \<rightharpoonup> revocation \<times> net_error) \<Rightarrow>
   (ursula \<times> revocation) list \<Rightarrow>
   (error + (node_id \<rightharpoonup> revocation \<times> net_error)) \<times> (ursula \<times> revocation) list" where
  "revoke_loop revoke_arrangement known [] failed_revocations calls =
     (Inr failed_revocations, calls)"
| "revoke_loop revoke_arrangement known ((node, token) # rest) failed_revocations calls =
     (case known node of
        None \<Rightarrow> (Inl KeyError, calls)
      | Some u \<Rightarrow>
          (case revoke_arrangement u token of
             Inl e \<Rightarrow>
               if e = NotFound \<or> e = UnexpectedResponse then
                 revoke_loop revoke_arrangement known rest
                   (failed_revocations(node \<mapsto> (token, e))) (calls @ [(u, token)])
               else (Inl (NetworkError e), calls @ [(u, token)])
           | Inr r \<Rightarrow>
               revoke_loop revoke_arrangement known rest failed_revocations
                 (calls @ [(u, token)])))"

text \<open>
  \<^verbatim>\<open>Alice.revoke(policy)\<close>, lines 256 to 284. \<open>known\<close> is \<^verbatim>\<open>self.known_nodes\<close> at the
  call and \<open>learning\<close> what the learning loop makes of it while Alice blocks. The result
  pairs what the call returns or raises with the revocation requests it sent.
\<close>

definition revoke ::
  "(ursula \<Rightarrow> revocation \<Rightarrow> net_error + response) \<Rightarrow> (node_id \<rightharpoonup> ursula) list \<Rightarrow>
   (node_id \<rightharpoonup> ursula) \<Rightarrow> policy \<Rightarrow>
   (error + (node_id \<rightharpoonup> revocation \<times> net_error)) \<times> (ursula \<times> revocation) list" where
  "revoke revoke_arrangement learning known p =
     (case block_until_specific_nodes_are_known (known # learning) (revokable_addresses p)
             (revoke_allow_missing p) of
        Inl e \<Rightarrow> (Inl e, [])
      | Inr known' \<Rightarrow> revoke_loop revoke_arrangement known' (revocation_kit p) Map.empty [])"

subsection \<open>Alice: granting\<close>






text \<open>
  What \<^verbatim>\<open>Alice.grant\<close> reads of Alice: \<^verbatim>\<open>self.federated_only\<close>, the nodes of
  \<^verbatim>\<open>self.known_nodes\<close> as \<^verbatim>\<open>list(self.known_nodes)\<close> gives them, and the attribute
  \<^verbatim>\<open>self.n\<close> that line 235 formats into the message of its \<^verbatim>\<open>ValueError\<close>. No line
  of the source file sets that attribute; \<open>None\<close> stands for an Alice without it, on which
  reading it raises \<^verbatim>\<open>AttributeError\<close>.
\<close>

record alice =
  federated_only :: bool
  alice_known_nodes :: "ursula list"
  alice_n :: "int option"








section \<open>Example inputs\<close>

text \<open>Concrete inputs on which the theorems below are instantiated.\<close>

definition ex_map :: treasure_map where
  "ex_map = \<lparr>destinations = [(''0xA'', [1])], tmap_m = 1\<rparr>"

definition ex_digest :: "bytes \<Rightarrow> bytes" where
  "ex_digest x = take 32 (x @ replicate 32 0)"

definition ex_ursula :: "string \<Rightarrow> ursula" where
  "ex_ursula a = \<lparr>checksum_public_address = a, rest_host = ''localhost'', rest_port = 9151\<rparr>"

definition ex_get :: "ursula \<Rightarrow> map_id \<Rightarrow> net_error + response" where
  "ex_get u i =
     (if checksum_public_address u = ''0xA'' then Inl NodeSeemsToBeDown
      else if checksum_public_address u = ''0xB'' then Inr \<lparr>status_code = 404, content = []\<rparr>
      else Inr \<lparr>status_code = 200, content = [1, 2]\<rparr>)"


definition ex_codec :: node_codec where
  "ex_codec =
     \<lparr>LEARNER_VERSION = 1,
      to_checksum_address = (\<lambda>b. ''0x'' @ hex b),
      nickname_from_seed = (\<lambda>a. ''Nickname''),
      node_from_payload = (\<lambda>p fed.
        if length p < 20 then Inl BytestringSplittingError
        else Inr \<lparr>checksum_public_address = ''0x'' @ hex (take 20 p),
                  rest_host = ''localhost'', rest_port = 9151\<rparr>)\<rparr>"



definition ex_policy :: policy where
  "ex_policy =
     \<lparr>policy_n = 3,
      policy_treasure_map =
        \<lparr>destinations = [(''0xA'', [1]), (''0xB'', [2]), (''0xC'', [3])], tmap_m = 2\<rparr>,
      revocation_kit = [(''0xA'', [11]), (''0xB'', [12]), (''0xC'', [13])]\<rparr>"

definition ex_known_one :: "node_id \<rightharpoonup> ursula" where
  "ex_known_one = [''0xA'' \<mapsto> ex_ursula ''0xA'']"

definition ex_known_all :: "node_id \<rightharpoonup> ursula" where
  "ex_known_all =
     [''0xA'' \<mapsto> ex_ursula ''0xA'', ''0xB'' \<mapsto> ex_ursula ''0xB'', ''0xC'' \<mapsto> ex_ursula ''0xC'']"

definition ex_revoke_arrangement :: "ursula \<Rightarrow> revocation \<Rightarrow> net_error + response" where
  "ex_revoke_arrangement u token =
     (if checksum_public_address u = ''0xB'' then Inl NotFound
      else Inr \<lparr>status_code = 200, content = []\<rparr>)"





definition ex_c1 :: capsule where "ex_c1 = Capsule [1]"
definition ex_c2 :: capsule where "ex_c2 = Capsule [2]"

definition ex_bob :: bob where
  "ex_bob =
     \<lparr>stamp = [5], decrypting_key = [6],
      treasure_maps = [''ab'' \<mapsto> ex_map],
      known_nodes = [''0xA'' \<mapsto> ex_ursula ''0xA''],
      saved_work_orders = (\<lambda>node. Map.empty),
      attached_cfrags = (\<lambda>c. []),
      reencrypt_calls = []\<rparr>"

definition ex_retrieval_map :: "arrangement_id \<Rightarrow> nat \<Rightarrow> treasure_map" where
  "ex_retrieval_map third m =
     \<lparr>destinations = [(''0xA'', [1]), (''0xB'', [2]), (''0xC'', third), (''0xD'', [4])],
      tmap_m = m\<rparr>"

definition ex_retrieval_env :: retrieval_env where
  "ex_retrieval_env =
     \<lparr>keccak_digest = ex_digest,
      reencrypt = (\<lambda>w. if checksum_public_address (wo_ursula w) = ''0xA'' then Inl ConnectTimeout
                        else Inr [CFrag (wo_arrangement_id w)]),
      cfrag_is_correct = (\<lambda>keys c cf. cf \<noteq> CFrag [0]),
      verify_from = (\<lambda>pk kit cfrags. Inr [104, 105])\<rparr>"

definition ex_map_id :: map_id where
  "ex_map_id = snd (construct_hrac_and_map_id ex_digest [5] [2] [3])"

definition ex_retrieval_bob :: "treasure_map \<Rightarrow> bob" where
  "ex_retrieval_bob t =
     \<lparr>stamp = [5], decrypting_key = [6],
      treasure_maps = [ex_map_id \<mapsto> t],
      known_nodes =
        [''0xA'' \<mapsto> ex_ursula ''0xA'', ''0xB'' \<mapsto> ex_ursula ''0xB'',
         ''0xC'' \<mapsto> ex_ursula ''0xC'', ''0xD'' \<mapsto> ex_ursula ''0xD''],
      saved_work_orders = (\<lambda>node. Map.empty),
      attached_cfrags = (\<lambda>c. []),
      reencrypt_calls = []\<rparr>"

definition ex_kit :: message_kit where
  "ex_kit = \<lparr>kit_capsule = ex_c1, kit_ciphertext = [9]\<rparr>"

definition ex_work_order :: "string \<Rightarrow> arrangement_id \<Rightarrow> work_order" where
  "ex_work_order a arrangement = construct_by_bob arrangement [ex_c1] (ex_ursula a)"


section \<open>Properties\<close>

lemma length_hex: "length (hex bs) = 2 * length bs"
  by (induction bs) simp_all

subsection \<open>Choosing between a treasure map and a map id\<close>



subsection \<open>Policy identifiers\<close>

lemma hex_digit_is_hex: "hex_digit d \<in> set ''0123456789abcdef''"
proof -
  have "d mod 16 < length ''0123456789abcdef''" by simp
  then show ?thesis unfolding hex_digit_def by (rule nth_mem)
qed

lemma hex_chars: "set (hex bs) \<subseteq> set ''0123456789abcdef''"
proof (induction bs)
  case Nil
  then show ?case by simp
next
  case (Cons b bs)
  have "hex_digit (unat b div 16) \<in> set ''0123456789abcdef''"
    and "hex_digit (unat b mod 16) \<in> set ''0123456789abcdef''"
    by (rule hex_digit_is_hex)+
  with Cons show ?case by simp
qed

text \<open>
  C4. \<^verbatim>\<open>construct_hrac_and_map_id\<close> is a function of the delegator's verifying key, the
  delegatee's stamp and the label alone. The HRAC is the keccak digest of the verifying
  key followed by the stamp and the label, and the map id is the hexadecimal encoding of
  the keccak digest of the verifying key followed by the HRAC. With a digest of 32 bytes
  the HRAC has 32 bytes and the map id 64 hexadecimal digits. Equal inputs give equal
  outputs.
\<close>

theorem construct_hrac_and_map_id_deterministic:
  assumes "\<forall>x. length (keccak x) = 32"
  shows "construct_hrac_and_map_id keccak st vk label =
           (keccak (vk @ st @ label), hex (keccak (vk @ keccak (vk @ st @ label)))) \<and>
         length (fst (construct_hrac_and_map_id keccak st vk label)) = 32 \<and>
         length (snd (construct_hrac_and_map_id keccak st vk label)) = 64 \<and>
         set (snd (construct_hrac_and_map_id keccak st vk label)) \<subseteq> set ''0123456789abcdef'' \<and>
         (vk' = vk \<and> st' = st \<and> label' = label \<longrightarrow>
            construct_hrac_and_map_id keccak st' vk' label' =
            construct_hrac_and_map_id keccak st vk label)"
proof -
  have eq: "construct_hrac_and_map_id keccak st vk label =
           (keccak (vk @ st @ label), hex (keccak (vk @ keccak (vk @ st @ label))))"
    by (simp add: construct_hrac_and_map_id_def construct_policy_hrac_def Let_def)
  have chars: "set (hex (keccak (vk @ keccak (vk @ st @ label)))) \<subseteq> set ''0123456789abcdef''"
    by (rule hex_chars)
  have hrac_length: "length (fst (construct_hrac_and_map_id keccak st vk label)) = 32"
    using assms by (simp add: eq)
  have map_id_length: "length (snd (construct_hrac_and_map_id keccak st vk label)) = 64"
    using assms by (simp add: eq length_hex)
  have map_id_chars:
    "set (snd (construct_hrac_and_map_id keccak st vk label)) \<subseteq> set ''0123456789abcdef''"
    using chars by (simp only: eq snd_conv)
  show ?thesis
    using eq hrac_length map_id_length map_id_chars by blast
qed

theorem construct_hrac_and_map_id_deterministic_witness:
  "(\<forall>x. length (ex_digest x) = 32) \<and>
   length (fst (construct_hrac_and_map_id ex_digest [1] [2] [3])) = 32 \<and>
   length (snd (construct_hrac_and_map_id ex_digest [1] [2] [3])) = 64"
proof -
  have h: "\<forall>x. length (ex_digest x) = 32" by (simp add: ex_digest_def min_def)
  from construct_hrac_and_map_id_deterministic [OF h, of "[1]" "[2]" "[3]"] h
  show ?thesis by blast
qed

subsection \<open>Fetching the treasure map\<close>

lemma get_treasure_map_skips:
  assumes "\<forall>p \<in> set pre. skipped_node get i p"
  shows "get_treasure_map_from_known_ursulas get decode (pre @ rest) i =
         get_treasure_map_from_known_ursulas get decode rest i"
  using assms
  by (induction pre) (auto simp: skipped_node_def split: sum.splits)

lemma get_treasure_map_served:
  assumes "serves_map get i node"
  shows "\<exists>r. get node i = Inr r \<and>
           get_treasure_map_from_known_ursulas get decode (node # post) i = decode (content r)"
  using assms by (auto simp: serves_map_def split: sum.splits)

text \<open>
  C6. \<^verbatim>\<open>get_treasure_map_from_known_ursulas\<close> goes through the known nodes in the
  shuffled order, whatever that order is. Nodes that seem to be down or do not answer
  with status 200 and a non-empty body are skipped, and the result is the treasure map
  decoded from the body of the first node that serves it. When every known node has been
  tried and skipped, the result is \<^verbatim>\<open>NowhereToBeFound\<close>. The function is total, so it
  never blocks.
\<close>

theorem get_treasure_map_from_known_ursulas_first_success:
  assumes "set nodes = set known"
  shows "((\<forall>node \<in> set known. skipped_node get i node) \<longrightarrow>
            get_treasure_map_from_known_ursulas get decode nodes i = Inl NowhereToBeFound) \<and>
         (nodes = pre @ node # post \<and> (\<forall>p \<in> set pre. skipped_node get i p) \<and>
            serves_map get i node \<longrightarrow>
            (\<exists>r. get node i = Inr r \<and> status_code r = 200 \<and> content r \<noteq> [] \<and>
               get_treasure_map_from_known_ursulas get decode nodes i = decode (content r)))"
proof -
  have nowhere: "(\<forall>node \<in> set known. skipped_node get i node) \<longrightarrow>
            get_treasure_map_from_known_ursulas get decode nodes i = Inl NowhereToBeFound"
    using assms get_treasure_map_skips [of nodes get i decode "[]"] by simp
  have first: "nodes = pre @ node # post \<and> (\<forall>p \<in> set pre. skipped_node get i p) \<and>
            serves_map get i node \<longrightarrow>
            (\<exists>r. get node i = Inr r \<and> status_code r = 200 \<and> content r \<noteq> [] \<and>
               get_treasure_map_from_known_ursulas get decode nodes i = decode (content r))"
  proof (intro impI, elim conjE)
    assume n: "nodes = pre @ node # post" and s: "\<forall>p \<in> set pre. skipped_node get i p"
      and v: "serves_map get i node"
    from get_treasure_map_served [OF v, of decode post]
    obtain r where r: "get node i = Inr r"
      "get_treasure_map_from_known_ursulas get decode (node # post) i = decode (content r)"
      by blast
    from v r(1) have "status_code r = 200 \<and> content r \<noteq> []" by (simp add: serves_map_def)
    with r n get_treasure_map_skips [OF s, of decode "node # post"] show
      "\<exists>r. get node i = Inr r \<and> status_code r = 200 \<and> content r \<noteq> [] \<and>
               get_treasure_map_from_known_ursulas get decode nodes i = decode (content r)"
      by auto
  qed
  from nowhere first show ?thesis by blast
qed

theorem get_treasure_map_from_known_ursulas_first_success_witness:
  "get_treasure_map_from_known_ursulas ex_get (\<lambda>c. Inr ex_map)
     [ex_ursula ''0xA'', ex_ursula ''0xB''] ''ab'' = Inl NowhereToBeFound \<and>
   get_treasure_map_from_known_ursulas ex_get (\<lambda>c. Inr ex_map)
     [ex_ursula ''0xA'', ex_ursula ''0xB'', ex_ursula ''0xC'', ex_ursula ''0xD''] ''ab'' = Inr ex_map"
  using get_treasure_map_from_known_ursulas_first_success
      [of "[ex_ursula ''0xA'', ex_ursula ''0xB'']" "[ex_ursula ''0xB'', ex_ursula ''0xA'']"
          ex_get "''ab''" "\<lambda>c. Inr ex_map" "[]" "ex_ursula ''0xA''" "[]"]
    get_treasure_map_from_known_ursulas_first_success
      [of "[ex_ursula ''0xA'', ex_ursula ''0xB'', ex_ursula ''0xC'', ex_ursula ''0xD'']"
          "[ex_ursula ''0xA'', ex_ursula ''0xB'', ex_ursula ''0xC'', ex_ursula ''0xD'']"
          ex_get "''ab''" "\<lambda>c. Inr ex_map" "[ex_ursula ''0xA'', ex_ursula ''0xB'']"
          "ex_ursula ''0xC''" "[ex_ursula ''0xD'']"]
  by (simp add: ex_ursula_def ex_get_def skipped_node_def serves_map_def insert_commute)

subsection \<open>Node records from the future\<close>

lemma from_bytes_given_version:
  "from_bytes codec payload (Some v) fed =
     (if LEARNER_VERSION codec < v then Inl (IsFromTheFuture (future_message codec v payload))
      else node_from_payload codec payload fed)"
  by (simp add: from_bytes_def)

lemma from_bytes_leading_version:
  "from_bytes codec (b0 # b1 # payload) None fed =
     from_bytes codec payload (Some (256 * unat b0 + unat b1)) fed"
  by (simp add: from_bytes_def)

lemma future_message_with_address:
  assumes "PUBLIC_ADDRESS_LENGTH \<le> length payload"
  shows "future_message codec v payload =
           Unknown_version_message
             (display_name
                (nickname_from_seed codec
                   (to_checksum_address codec (take PUBLIC_ADDRESS_LENGTH payload)))
                (to_checksum_address codec (take PUBLIC_ADDRESS_LENGTH payload)))
             v (LEARNER_VERSION codec)"
  using assms by (simp add: future_message_def address_splitter_def Let_def)

lemma future_message_without_address:
  assumes "length payload < PUBLIC_ADDRESS_LENGTH"
  shows "future_message codec v payload =
           Really_unknown_version_message v (LEARNER_VERSION codec)"
  using assms by (simp add: future_message_def address_splitter_def)

text \<open>
  C7. For every byte string whose leading two bytes, read as a big-endian unsigned
  integer, exceed \<^verbatim>\<open>LEARNER_VERSION\<close>, \<^verbatim>\<open>Ursula.from_bytes\<close> raises
  \<^verbatim>\<open>IsFromTheFuture\<close> and returns no node. When the payload after the version has at
  least 20 bytes, its first 20 bytes are salvaged as the canonical address, and the
  message is the unknown-version message formatted with the display name, which holds
  the nickname and the checksum address of that address. On a shorter payload the
  message is the one without an address.
\<close>

theorem from_bytes_from_the_future:
  assumes "LEARNER_VERSION codec < 256 * unat b0 + unat b1"
  shows "from_bytes codec (b0 # b1 # payload) None fed =
           Inl (IsFromTheFuture (future_message codec (256 * unat b0 + unat b1) payload)) \<and>
         (20 \<le> length payload \<longrightarrow>
            (\<exists>checksum_address nickname.
               checksum_address = to_checksum_address codec (take 20 payload) \<and>
               nickname = nickname_from_seed codec checksum_address \<and>
               future_message codec (256 * unat b0 + unat b1) payload =
                 Unknown_version_message
                   (harpoon_right @ nickname @ harpoon_left @ '' ('' @ checksum_address @ '')'')
                   (256 * unat b0 + unat b1) (LEARNER_VERSION codec))) \<and>
         (length payload < 20 \<longrightarrow>
            future_message codec (256 * unat b0 + unat b1) payload =
              Really_unknown_version_message (256 * unat b0 + unat b1) (LEARNER_VERSION codec))"
proof -
  have raised: "from_bytes codec (b0 # b1 # payload) None fed =
           Inl (IsFromTheFuture (future_message codec (256 * unat b0 + unat b1) payload))"
    using assms by (simp add: from_bytes_leading_version from_bytes_given_version)
  have salvaged: "20 \<le> length payload \<longrightarrow>
      future_message codec (256 * unat b0 + unat b1) payload =
        Unknown_version_message
          (harpoon_right @ nickname_from_seed codec (to_checksum_address codec (take 20 payload))
             @ harpoon_left @ '' ('' @ to_checksum_address codec (take 20 payload) @ '')'')
          (256 * unat b0 + unat b1) (LEARNER_VERSION codec)"
    using future_message_with_address [of payload codec]
    by (simp add: PUBLIC_ADDRESS_LENGTH_def display_name_def)
  have lost: "length payload < 20 \<longrightarrow>
      future_message codec (256 * unat b0 + unat b1) payload =
        Really_unknown_version_message (256 * unat b0 + unat b1) (LEARNER_VERSION codec)"
    using future_message_without_address [of payload codec]
    by (simp add: PUBLIC_ADDRESS_LENGTH_def)
  from raised salvaged lost show ?thesis by blast
qed

theorem from_bytes_from_the_future_witness:
  "from_bytes ex_codec (0 # 2 # replicate 20 171) None False =
     Inl (IsFromTheFuture
       (Unknown_version_message
          (harpoon_right @ ''Nickname'' @ harpoon_left @ '' ('' @
             ''0x'' @ hex (replicate 20 171) @ '')'') 2 1)) \<and>
   from_bytes ex_codec [0, 2, 171] None False =
     Inl (IsFromTheFuture (Really_unknown_version_message 2 1))"
  using from_bytes_from_the_future [of ex_codec 0 2 "replicate 20 171" False]
    from_bytes_from_the_future [of ex_codec 0 2 "[171]" False]
  by (simp add: ex_codec_def)

subsection \<open>Batches of node records\<close>





subsection \<open>Revocation waits for its threshold\<close>

lemma known_unknown_addresses:
  "length (known_addresses k addrs) + length (unknown_addresses k addrs) = length (remdups addrs)"
  unfolding known_addresses_def unknown_addresses_def
  using sum_length_filter_compl [of "\<lambda>a. k a \<noteq> None" "remdups addrs"] by simp

lemma block_until_specific_nodes_returns:
  assumes "block_until_specific_nodes_are_known snaps addrs am = Inr k"
  shows "\<exists>pre post. snaps = pre @ k # post \<and>
           int (length (unknown_addresses k addrs)) \<le> am \<and>
           (\<forall>earlier \<in> set pre. am < int (length (unknown_addresses earlier addrs)))"
  using assms
proof (induction snaps)
  case Nil
  then show ?case by simp
next
  case (Cons s snaps)
  show ?case
  proof (cases "int (length (unknown_addresses s addrs)) \<le> am")
    case True
    with Cons.prems have "s = k" by simp
    with True have "s # snaps = [] @ k # snaps \<and>
           int (length (unknown_addresses k addrs)) \<le> am \<and>
           (\<forall>earlier \<in> set []. am < int (length (unknown_addresses earlier addrs)))"
      by simp
    then show ?thesis by blast
  next
    case False
    with Cons.prems have "block_until_specific_nodes_are_known snaps addrs am = Inr k" by simp
    from Cons.IH [OF this] obtain pre post where
      "snaps = pre @ k # post" "int (length (unknown_addresses k addrs)) \<le> am"
      "\<forall>earlier \<in> set pre. am < int (length (unknown_addresses earlier addrs))"
      by blast
    with False have "s # snaps = (s # pre) @ k # post \<and>
           int (length (unknown_addresses k addrs)) \<le> am \<and>
           (\<forall>earlier \<in> set (s # pre). am < int (length (unknown_addresses earlier addrs)))"
      by simp
    then show ?thesis by blast
  qed
qed

lemma block_until_specific_nodes_raises:
  assumes "block_until_specific_nodes_are_known snaps addrs am = Inl e"
  shows "e = NotEnoughTeachers \<and>
         (\<forall>k \<in> set snaps. am < int (length (unknown_addresses k addrs)))"
  using assms by (induction snaps) (auto split: if_splits)

lemma block_until_specific_nodes_deadline:
  assumes "\<forall>k \<in> set snaps. am < int (length (unknown_addresses k addrs))"
  shows "block_until_specific_nodes_are_known snaps addrs am = Inl NotEnoughTeachers"
  using assms by (induction snaps) auto

lemma revoke_allow_missing_eq:
  "revoke_allow_missing p = int (tmap_m (policy_treasure_map p)) - 1"
  by (simp add: revoke_allow_missing_def revocation_threshold_def)

lemma enough_known_iff:
  assumes "distinct addrs" and "length addrs = policy_n p"
  shows "int (length (unknown_addresses k addrs)) \<le> revoke_allow_missing p \<longleftrightarrow>
         revocation_threshold p \<le> int (length (known_addresses k addrs))"
proof -
  have "length (known_addresses k addrs) + length (unknown_addresses k addrs) = policy_n p"
    using known_unknown_addresses [of k addrs] assms by (simp add: distinct_remdups_id)
  then show ?thesis
    by (simp add: revoke_allow_missing_def) linarith
qed

text \<open>
  C5. For a policy with parameters \<open>(m, n)\<close> whose revocation kit addresses \<open>n\<close>
  different proxies, \<^verbatim>\<open>Alice.revoke\<close> computes the revocation threshold \<open>(n - m) + 1\<close>
  and waits with \<^verbatim>\<open>allow_missing\<close> \<open>= n - threshold = m - 1\<close>. When the deadline passes
  with fewer than the threshold of the addressed proxies known at every moment, it raises
  \<^verbatim>\<open>NotEnoughTeachers\<close> and has sent no revocation. Whenever it sends a revocation or
  ends otherwise, the wait has returned at the first moment at which at least the
  threshold of the addressed proxies were known, that is at most \<open>m - 1\<close> were missing,
  and the revocation loop runs on the nodes known at that moment.
\<close>

theorem revoke_waits_for_revocation_threshold:
  assumes "distinct (revokable_addresses p)"
    and "length (revokable_addresses p) = policy_n p"
    and "revoke revoke_arrangement learning known p = (outcome, calls)"
  shows "revocation_threshold p =
           (int (policy_n p) - int (tmap_m (policy_treasure_map p))) + 1 \<and>
         revoke_allow_missing p = int (tmap_m (policy_treasure_map p)) - 1 \<and>
         ((\<forall>k \<in> set (known # learning).
             int (length (known_addresses k (revokable_addresses p))) < revocation_threshold p)
            \<longrightarrow> outcome = Inl NotEnoughTeachers \<and> calls = []) \<and>
         (calls \<noteq> [] \<or> outcome \<noteq> Inl NotEnoughTeachers \<longrightarrow>
            (\<exists>pre k post. known # learning = pre @ k # post \<and>
               revocation_threshold p \<le> int (length (known_addresses k (revokable_addresses p))) \<and>
               int (length (unknown_addresses k (revokable_addresses p)))
                 \<le> int (tmap_m (policy_treasure_map p)) - 1 \<and>
               (\<forall>earlier \<in> set pre.
                  int (length (known_addresses earlier (revokable_addresses p)))
                    < revocation_threshold p) \<and>
               (outcome, calls) = revoke_loop revoke_arrangement k (revocation_kit p) Map.empty []))"
proof -
  let ?addrs = "revokable_addresses p"
  note iff = enough_known_iff [OF assms(1,2)]
  have threshold: "revocation_threshold p =
           (int (policy_n p) - int (tmap_m (policy_treasure_map p))) + 1"
    by (simp add: revocation_threshold_def)
  have missing: "revoke_allow_missing p = int (tmap_m (policy_treasure_map p)) - 1"
    by (rule revoke_allow_missing_eq)
  have deadline: "(\<forall>k \<in> set (known # learning).
             int (length (known_addresses k ?addrs)) < revocation_threshold p)
            \<longrightarrow> outcome = Inl NotEnoughTeachers \<and> calls = []"
  proof
    assume "\<forall>k \<in> set (known # learning).
             int (length (known_addresses k ?addrs)) < revocation_threshold p"
    then have "\<forall>k \<in> set (known # learning).
        revoke_allow_missing p < int (length (unknown_addresses k ?addrs))"
      using iff by (metis not_le)
    from block_until_specific_nodes_deadline [OF this] assms(3)
    show "outcome = Inl NotEnoughTeachers \<and> calls = []"
      by (simp add: revoke_def)
  qed
  have proceeds: "calls \<noteq> [] \<or> outcome \<noteq> Inl NotEnoughTeachers \<longrightarrow>
            (\<exists>pre k post. known # learning = pre @ k # post \<and>
               revocation_threshold p \<le> int (length (known_addresses k ?addrs)) \<and>
               int (length (unknown_addresses k ?addrs))
                 \<le> int (tmap_m (policy_treasure_map p)) - 1 \<and>
               (\<forall>earlier \<in> set pre.
                  int (length (known_addresses earlier ?addrs)) < revocation_threshold p) \<and>
               (outcome, calls) = revoke_loop revoke_arrangement k (revocation_kit p) Map.empty [])"
  proof
    assume sent: "calls \<noteq> [] \<or> outcome \<noteq> Inl NotEnoughTeachers"
    show "\<exists>pre k post. known # learning = pre @ k # post \<and>
               revocation_threshold p \<le> int (length (known_addresses k ?addrs)) \<and>
               int (length (unknown_addresses k ?addrs))
                 \<le> int (tmap_m (policy_treasure_map p)) - 1 \<and>
               (\<forall>earlier \<in> set pre.
                  int (length (known_addresses earlier ?addrs)) < revocation_threshold p) \<and>
               (outcome, calls) = revoke_loop revoke_arrangement k (revocation_kit p) Map.empty []"
    proof (cases "block_until_specific_nodes_are_known (known # learning) ?addrs
                    (revoke_allow_missing p)")
      case (Inl e)
      with block_until_specific_nodes_raises [OF Inl] assms(3) sent show ?thesis
        by (simp add: revoke_def)
    next
      case (Inr k)
      from block_until_specific_nodes_returns [OF Inr] obtain pre post where
        split: "known # learning = pre @ k # post"
        and ok: "int (length (unknown_addresses k ?addrs)) \<le> revoke_allow_missing p"
        and before: "\<forall>earlier \<in> set pre.
                       revoke_allow_missing p < int (length (unknown_addresses earlier ?addrs))"
        by blast
      from ok iff have enough: "revocation_threshold p \<le> int (length (known_addresses k ?addrs))"
        by simp
      from before iff have fewer: "\<forall>earlier \<in> set pre.
                  int (length (known_addresses earlier ?addrs)) < revocation_threshold p"
        by (metis not_le)
      from Inr assms(3) have loop:
        "(outcome, calls) = revoke_loop revoke_arrangement k (revocation_kit p) Map.empty []"
        by (simp add: revoke_def)
      from split enough ok fewer loop show ?thesis
        unfolding missing by blast
    qed
  qed
  from threshold missing deadline proceeds show ?thesis by blast
qed


theorem revoke_waits_for_revocation_threshold_witness:
  "revoke ex_revoke_arrangement [ex_known_all] ex_known_one ex_policy =
     (Inr [''0xB'' \<mapsto> ([12], NotFound)],
      [(ex_ursula ''0xA'', [11]), (ex_ursula ''0xB'', [12]), (ex_ursula ''0xC'', [13])]) \<and>
   revocation_threshold ex_policy = 2 \<and>
   revoke_allow_missing ex_policy = 1"
proof -
  have d: "distinct (revokable_addresses ex_policy)"
    by (simp add: revokable_addresses_def ex_policy_def)
  have l: "length (revokable_addresses ex_policy) = policy_n ex_policy"
    by (simp add: revokable_addresses_def ex_policy_def)
  have r: "revoke ex_revoke_arrangement [ex_known_all] ex_known_one ex_policy =
     (Inr [''0xB'' \<mapsto> ([12], NotFound)],
      [(ex_ursula ''0xA'', [11]), (ex_ursula ''0xB'', [12]), (ex_ursula ''0xC'', [13])])"
    by (simp add: revoke_def revokable_addresses_def revoke_allow_missing_def
        revocation_threshold_def unknown_addresses_def ex_policy_def ex_known_one_def
        ex_known_all_def ex_revoke_arrangement_def ex_ursula_def)
  from revoke_waits_for_revocation_threshold [OF d l r] r show ?thesis
    by (simp add: ex_policy_def)
qed

subsection \<open>Granting in federated mode\<close>












subsection \<open>Work orders\<close>

text \<open>
  C1 does not hold of the code. Bob has a treasure map with the single destination
  \<open>0xA\<close>, knows that node and has no work-order history. A first call of
  \<^verbatim>\<open>generate_work_orders\<close> with two capsules issues one work order to \<open>0xA\<close> that holds
  both. Line 538 saves it under the last capsule only, so a second call, with no request
  sent in between, issues the first capsule to \<open>0xA\<close> again.
\<close>

theorem generate_work_orders_reissues_capsule:
  "fst (generate_work_orders ex_bob ''ab'' [ex_c1, ex_c2] None) =
     Inr [(''0xA'', construct_by_bob [1] [ex_c1, ex_c2] (ex_ursula ''0xA''))] \<and>
   reencrypt_calls (snd (generate_work_orders ex_bob ''ab'' [ex_c1, ex_c2] None)) = [] \<and>
   fst (generate_work_orders (snd (generate_work_orders ex_bob ''ab'' [ex_c1, ex_c2] None))
          ''ab'' [ex_c1, ex_c2] None) =
     Inr [(''0xA'', construct_by_bob [1] [ex_c1] (ex_ursula ''0xA''))]"
  by (simp add: generate_work_orders_def ex_bob_def ex_map_def truthy_treasure_map_def
      ex_c1_def ex_c2_def Let_def)


subsection \<open>The dispatch loop of a retrieval\<close>

lemma get_reencrypted_cfrags_effect:
  assumes "get_reencrypted_cfrags env w s = (r, s1)"
  shows "r = reencrypt env w \<and> reencrypt_calls s1 = reencrypt_calls s @ [w] \<and>
         attached_cfrags s1 = attached_cfrags s"
  using assms by (auto simp: get_reencrypted_cfrags_def Let_def split: sum.splits)

lemma attach_cfrag_Some:
  assumes "attach_cfrag env keys c cf s1 = Some s2"
  shows "cfrag_is_correct env keys c cf \<and>
         attached_cfrags s2 c = attached_cfrags s1 c @ [cf] \<and>
         reencrypt_calls s2 = reencrypt_calls s1"
  using assms by (auto simp: attach_cfrag_def split: if_splits)

lemma attach_cfrag_None:
  "attach_cfrag env keys c cf s1 = None \<longleftrightarrow> \<not> cfrag_is_correct env keys c cf"
  by (simp add: attach_cfrag_def)

lemma retrieve_loop_append:
  assumes "retrieve_loop env keys c m pre s = (Inl NotEnoughUrsulas, s1)"
  shows "retrieve_loop env keys c m (pre @ rest) s = retrieve_loop env keys c m rest s1"
  using assms
proof (induction pre arbitrary: s)
  case Nil
  then show ?case by simp
next
  case (Cons w pre)
  then show ?case
    by (auto split: prod.splits sum.splits list.splits option.splits if_splits)
qed

lemma retrieve_loop_ran_through:
  assumes "retrieve_loop env keys c m pre s = (Inl NotEnoughUrsulas, s1)"
  shows "reencrypt_calls s1 = reencrypt_calls s @ pre \<and>
         (length (attached_cfrags s c) < m \<longrightarrow> length (attached_cfrags s1 c) < m)"
  using assms
proof (induction pre arbitrary: s)
  case Nil
  then show ?case by simp
next
  case (Cons w pre)
  obtain r s0 where g: "get_reencrypted_cfrags env w s = (r, s0)"
    by (cases "get_reencrypted_cfrags env w s")
  note eff = get_reencrypted_cfrags_effect [OF g]
  show ?case
  proof (cases r)
    case (Inl e)
    with Cons.prems g have e: "e = ConnectTimeout"
      and rest: "retrieve_loop env keys c m pre s0 = (Inl NotEnoughUrsulas, s1)"
      by (auto split: if_splits)
    from Cons.IH [OF rest] eff show ?thesis by simp
  next
    case (Inr cfrags)
    with Cons.prems g obtain cf others s2 where
      cfrags: "cfrags = cf # others"
      and att: "attach_cfrag env keys c cf s0 = Some s2"
      and small: "\<not> m \<le> length (attached_cfrags s2 c)"
      and rest: "retrieve_loop env keys c m pre s2 = (Inl NotEnoughUrsulas, s1)"
      by (auto split: list.splits option.splits if_splits)
    from Cons.IH [OF rest] attach_cfrag_Some [OF att] eff small show ?thesis by simp
  qed
qed


lemma retrieve_loop_incorrect:
  assumes "retrieve_loop env keys c m wos s = (Inl (IncorrectCFragReceived ev), s')"
  shows "\<exists>pre w post cf others s1.
           wos = pre @ w # post \<and>
           retrieve_loop env keys c m pre s = (Inl NotEnoughUrsulas, s1) \<and>
           reencrypt env w = Inr (cf # others) \<and> \<not> cfrag_is_correct env keys c cf \<and>
           ev = collect_evidence c cf (wo_ursula w) \<and>
           reencrypt_calls s' = reencrypt_calls s @ pre @ [w] \<and>
           attached_cfrags s' = attached_cfrags s1"
  using assms
proof (induction wos arbitrary: s)
  case Nil
  then show ?case by simp
next
  case (Cons w ws)
  obtain r s0 where g: "get_reencrypted_cfrags env w s = (r, s0)"
    by (cases "get_reencrypted_cfrags env w s")
  note eff = get_reencrypted_cfrags_effect [OF g]
  have step: "\<exists>pre v post cf others s1.
           w # ws = pre @ v # post \<and>
           retrieve_loop env keys c m pre s = (Inl NotEnoughUrsulas, s1) \<and>
           reencrypt env v = Inr (cf # others) \<and> \<not> cfrag_is_correct env keys c cf \<and>
           ev = collect_evidence c cf (wo_ursula v) \<and>
           reencrypt_calls s' = reencrypt_calls s @ pre @ [v] \<and>
           attached_cfrags s' = attached_cfrags s1"
    if rest: "retrieve_loop env keys c m ws t = (Inl (IncorrectCFragReceived ev), s')"
      and one: "retrieve_loop env keys c m [w] s = (Inl NotEnoughUrsulas, t)"
      and calls: "reencrypt_calls t = reencrypt_calls s @ [w]" for t
  proof -
    from Cons.IH [OF rest] obtain pre v post cf others s1 where
      d: "ws = pre @ v # post" "retrieve_loop env keys c m pre t = (Inl NotEnoughUrsulas, s1)"
        "reencrypt env v = Inr (cf # others)" "\<not> cfrag_is_correct env keys c cf"
        "ev = collect_evidence c cf (wo_ursula v)"
        "reencrypt_calls s' = reencrypt_calls t @ pre @ [v]"
        "attached_cfrags s' = attached_cfrags s1"
      by blast
    from retrieve_loop_append [OF one, of pre] d(2)
    have "retrieve_loop env keys c m (w # pre) s = (Inl NotEnoughUrsulas, s1)" by simp
    with d calls have "w # ws = (w # pre) @ v # post \<and>
           retrieve_loop env keys c m (w # pre) s = (Inl NotEnoughUrsulas, s1) \<and>
           reencrypt env v = Inr (cf # others) \<and> \<not> cfrag_is_correct env keys c cf \<and>
           ev = collect_evidence c cf (wo_ursula v) \<and>
           reencrypt_calls s' = reencrypt_calls s @ (w # pre) @ [v] \<and>
           attached_cfrags s' = attached_cfrags s1"
      by simp
    then show ?thesis by blast
  qed
  show ?case
  proof (cases r)
    case (Inl e)
    with Cons.prems g have e: "e = ConnectTimeout"
      and rest: "retrieve_loop env keys c m ws s0 = (Inl (IncorrectCFragReceived ev), s')"
      by (auto split: if_splits)
    from e Inl g have one: "retrieve_loop env keys c m [w] s = (Inl NotEnoughUrsulas, s0)"
      by simp
    from step [OF rest one] eff show ?thesis by simp
  next
    case (Inr cfrags)
    with Cons.prems g obtain cf others where cfrags: "cfrags = cf # others"
      by (auto split: list.splits)
    show ?thesis
    proof (cases "attach_cfrag env keys c cf s0")
      case None
      with Cons.prems g Inr cfrags
      have "ev = collect_evidence c cf (wo_ursula w)" and "s' = s0" by simp_all
      with None eff Inr cfrags
      have "w # ws = [] @ w # ws \<and>
           retrieve_loop env keys c m [] s = (Inl NotEnoughUrsulas, s) \<and>
           reencrypt env w = Inr (cf # others) \<and> \<not> cfrag_is_correct env keys c cf \<and>
           ev = collect_evidence c cf (wo_ursula w) \<and>
           reencrypt_calls s' = reencrypt_calls s @ [] @ [w] \<and>
           attached_cfrags s' = attached_cfrags s"
        by (simp add: attach_cfrag_None)
      then show ?thesis by blast
    next
      case (Some s2)
      with Cons.prems g Inr cfrags
      have small: "\<not> m \<le> length (attached_cfrags s2 c)"
        and rest: "retrieve_loop env keys c m ws s2 = (Inl (IncorrectCFragReceived ev), s')"
        by (auto split: if_splits)
      from small Inr cfrags g Some
      have one: "retrieve_loop env keys c m [w] s = (Inl NotEnoughUrsulas, s2)" by simp
      from step [OF rest one] attach_cfrag_Some [OF Some] eff show ?thesis by simp
    qed
  qed
qed



subsection \<open>A retrieval around its loop\<close>

lemma pick_treasure_map_errors:
  assumes "pick_treasure_map tms t i = Inl e"
  shows "e = ValueError \<or> e = KeyError"
  using assms
  by (cases t; cases i) (auto simp: lookup_treasure_map_def split: if_splits option.splits)

lemma follow_treasure_map_frame:
  assumes "follow_treasure_map learning s t i b am = (r, s1)"
  shows "reencrypt_calls s1 = reencrypt_calls s \<and> attached_cfrags s1 = attached_cfrags s \<and>
         saved_work_orders s1 = saved_work_orders s \<and>
         (\<forall>e. r = Inl e \<longrightarrow> e = ValueError \<or> e = KeyError \<or> e = NotEnoughTeachers)"
  using assms
  by (auto simp: follow_treasure_map_def peek_at_treasure_map_def
      split: sum.splits prod.splits if_splits
      dest: pick_treasure_map_errors block_until_specific_nodes_raises)

lemma work_orders_loop_frame:
  assumes "work_orders_loop dests capsules num generated s = (r, s1)"
  shows "reencrypt_calls s1 = reencrypt_calls s \<and> attached_cfrags s1 = attached_cfrags s \<and>
         (\<forall>e. r = Inl e \<longrightarrow> e = KeyError)"
  using assms
proof (induction dests arbitrary: generated s)
  case Nil
  then show ?case by auto
next
  case (Cons d dests)
  obtain node arrangement where d: "d = (node, arrangement)" by (cases d)
  show ?case
  proof (cases "known_nodes s node")
    case None
    with Cons.prems d show ?thesis by auto
  next
    case (Some u)
    let ?inc = "filter (\<lambda>c. saved_work_orders s node c = None) capsules"
    let ?wo = "construct_by_bob arrangement ?inc u"
    let ?g = "if ?inc \<noteq> [] then ordered_set generated node ?wo else generated"
    let ?s = "if ?inc \<noteq> [] then
                s\<lparr>saved_work_orders :=
                    (saved_work_orders s)
                      (node := (saved_work_orders s node)(last capsules \<mapsto> ?wo))\<rparr>
              else s"
    have frame: "reencrypt_calls ?s = reencrypt_calls s \<and> attached_cfrags ?s = attached_cfrags s"
      by simp
    show ?thesis
    proof (cases "num = Some (int (length ?g))")
      case True
      with Cons.prems d Some have "r = Inr ?g" and "s1 = ?s"
        by (simp_all add: Let_def)
      with frame show ?thesis by simp
    next
      case False
      with Cons.prems d Some
      have "work_orders_loop dests capsules num ?g ?s = (r, s1)"
        by (simp add: Let_def)
      from Cons.IH [OF this] frame show ?thesis by simp
    qed
  qed
qed

lemma generate_work_orders_frame:
  assumes "generate_work_orders s i capsules num = (r, s1)"
  shows "reencrypt_calls s1 = reencrypt_calls s \<and> attached_cfrags s1 = attached_cfrags s \<and>
         (\<forall>e. r = Inl e \<longrightarrow> e = ValueError \<or> e = KeyError)"
  using assms
  by (auto simp: generate_work_orders_def split: option.splits if_splits
      dest: work_orders_loop_frame)


lemma retrieve_incorrect_from_loop:
  assumes "retrieve env learning s kit pk vk label = (Inl (IncorrectCFragReceived ev), s')"
  shows "\<exists>m wos s2. retrieve_loop env (pk, decrypting_key s, vk) (kit_capsule kit) m wos s2 =
                       (Inl (IncorrectCFragReceived ev), s')"
proof -
  let ?i = "snd (construct_hrac_and_map_id (keccak_digest env) (stamp s) vk label)"
  obtain r1 s1 where f: "follow_treasure_map learning s None (Some ?i) True 0 = (r1, s1)"
    by (cases "follow_treasure_map learning s None (Some ?i) True 0")
  show ?thesis
  proof (cases r1)
    case (Inl e)
    with follow_treasure_map_frame [OF f] assms f show ?thesis
      by (auto simp: retrieve_def Let_def case_prod_beta)
  next
    case (Inr ukm)
    obtain unknown known m where ukm: "ukm = (unknown, known, m)" by (cases ukm)
    obtain r2 s2 where g: "generate_work_orders s1 ?i [kit_capsule kit] None = (r2, s2)"
      by (cases "generate_work_orders s1 ?i [kit_capsule kit] None")
    show ?thesis
    proof (cases r2)
      case (Inl e)
      with generate_work_orders_frame [OF g] assms f g Inr ukm show ?thesis
        by (auto simp: retrieve_def Let_def case_prod_beta)
    next
      case wos: (Inr work_orders)
      obtain r3 s3 where l: "retrieve_loop env (pk, decrypting_key s, vk) (kit_capsule kit) m
                               (map snd work_orders) s2 = (r3, s3)"
        by (cases "retrieve_loop env (pk, decrypting_key s, vk) (kit_capsule kit) m
                     (map snd work_orders) s2")
      from assms f g Inr ukm wos l have "r3 = Inl (IncorrectCFragReceived ev) \<and> s3 = s'"
        by (auto simp: retrieve_def Let_def case_prod_beta split: sum.splits)
      with l show ?thesis by blast
    qed
  qed
qed


subsection \<open>The example retrieval\<close>

lemma ex_map_id_nonempty: "ex_map_id \<noteq> []"
proof -
  have d: "length (ex_digest x) = 32" for x
    by (simp add: ex_digest_def min_def)
  have h: "ex_map_id = hex (ex_digest ([2] @ construct_policy_hrac ex_digest [5] [2] [3]))"
    by (simp add: ex_map_id_def construct_hrac_and_map_id_def Let_def)
  have "length ex_map_id =
          2 * length (ex_digest ([2] @ construct_policy_hrac ex_digest [5] [2] [3]))"
    unfolding h by (rule length_hex)
  with d have "length ex_map_id = 64" by simp
  then show ?thesis by auto
qed

lemma ex_follow_treasure_map:
  "follow_treasure_map [] (ex_retrieval_bob (ex_retrieval_map third m)) None (Some ex_map_id)
     True 0 =
   (Inr ([], [''0xA'', ''0xB'', ''0xC'', ''0xD''], m),
    ex_retrieval_bob (ex_retrieval_map third m))"
  by (simp add: follow_treasure_map_def peek_at_treasure_map_def lookup_treasure_map_def
      ex_map_id_nonempty ex_retrieval_bob_def ex_retrieval_map_def truthy_treasure_map_def
      unknown_addresses_def known_addresses_def)




lemma ex_retrieve_incorrect:
  "fst (retrieve ex_retrieval_env [] (ex_retrieval_bob (ex_retrieval_map [0] 2)) ex_kit
          [7] [2] [3]) =
     Inl (IncorrectCFragReceived
            \<lparr>evidence_capsule = ex_c1, evidence_cfrag = CFrag [0],
             evidence_ursula = ex_ursula ''0xC''\<rparr>) \<and>
   reencrypt_calls (snd (retrieve ex_retrieval_env [] (ex_retrieval_bob (ex_retrieval_map [0] 2))
          ex_kit [7] [2] [3])) =
     [ex_work_order ''0xA'' [1], ex_work_order ''0xB'' [2], ex_work_order ''0xC'' [0]]"
proof -
  have i: "snd (construct_hrac_and_map_id (keccak_digest ex_retrieval_env)
                  (stamp (ex_retrieval_bob t)) [2] [3]) = ex_map_id" for t
    by (simp add: ex_retrieval_env_def ex_retrieval_bob_def ex_map_id_def)
  show ?thesis
    by (simp add: retrieve_def Let_def case_prod_beta i ex_follow_treasure_map ex_kit_def)
       (simp add: generate_work_orders_def ex_retrieval_bob_def ex_retrieval_map_def
          truthy_treasure_map_def ex_work_order_def construct_by_bob_def
          get_reencrypted_cfrags_def attach_cfrag_def collect_evidence_def
          ex_retrieval_env_def ex_ursula_def Let_def)
qed

subsection \<open>Threshold and exhaustion\<close>



subsection \<open>Incorrect cfrags\<close>

text \<open>
  C3. When the loop of \<^verbatim>\<open>Bob.retrieve\<close> has run through the work orders before \<open>w\<close>
  and the first cfrag returned for \<open>w\<close> fails the correctness check, the loop raises
  \<^verbatim>\<open>IncorrectCFragReceived\<close> at once: \<open>w\<close> is the last request sent, nothing is
  attached, and the evidence holds the capsule, the offending cfrag and the Ursula of
  \<open>w\<close>. Conversely, whenever \<^verbatim>\<open>retrieve\<close> raises \<^verbatim>\<open>IncorrectCFragReceived\<close>, its
  evidence is exactly the capsule of the message kit, a cfrag that failed the check, and
  the Ursula of the last work order sent, who returned that cfrag.
\<close>

theorem retrieve_halts_on_incorrect_cfrag:
  "(retrieve_loop env keys c m pre s = (Inl NotEnoughUrsulas, s1) \<and>
    reencrypt env w = Inr (cf # others) \<and> \<not> cfrag_is_correct env keys c cf \<longrightarrow>
      (\<exists>s'. retrieve_loop env keys c m (pre @ w # post) s =
               (Inl (IncorrectCFragReceived
                  \<lparr>evidence_capsule = c, evidence_cfrag = cf,
                   evidence_ursula = wo_ursula w\<rparr>), s') \<and>
         reencrypt_calls s' = reencrypt_calls s @ pre @ [w] \<and>
         attached_cfrags s' = attached_cfrags s1)) \<and>
   (retrieve env learning b kit pk vk label = (Inl (IncorrectCFragReceived ev), b') \<longrightarrow>
      (\<exists>v bad rest.
         reencrypt_calls b' \<noteq> [] \<and> last (reencrypt_calls b') = v \<and>
         reencrypt env v = Inr (bad # rest) \<and>
         \<not> cfrag_is_correct env (pk, decrypting_key b, vk) (kit_capsule kit) bad \<and>
         ev = \<lparr>evidence_capsule = kit_capsule kit, evidence_cfrag = bad,
               evidence_ursula = wo_ursula v\<rparr>))"
proof -
  have halts: "retrieve_loop env keys c m pre s = (Inl NotEnoughUrsulas, s1) \<and>
    reencrypt env w = Inr (cf # others) \<and> \<not> cfrag_is_correct env keys c cf \<longrightarrow>
      (\<exists>s'. retrieve_loop env keys c m (pre @ w # post) s =
               (Inl (IncorrectCFragReceived
                  \<lparr>evidence_capsule = c, evidence_cfrag = cf,
                   evidence_ursula = wo_ursula w\<rparr>), s') \<and>
         reencrypt_calls s' = reencrypt_calls s @ pre @ [w] \<and>
         attached_cfrags s' = attached_cfrags s1)"
  proof (intro impI, elim conjE)
    assume p: "retrieve_loop env keys c m pre s = (Inl NotEnoughUrsulas, s1)"
      and r: "reencrypt env w = Inr (cf # others)"
      and bad: "\<not> cfrag_is_correct env keys c cf"
    obtain r0 s0 where g: "get_reencrypted_cfrags env w s1 = (r0, s0)"
      by (cases "get_reencrypted_cfrags env w s1")
    note eff = get_reencrypted_cfrags_effect [OF g]
    from g eff r bad
    have "retrieve_loop env keys c m (w # post) s1 =
            (Inl (IncorrectCFragReceived (collect_evidence c cf (wo_ursula w))), s0)"
      by (simp add: attach_cfrag_def)
    with retrieve_loop_append [OF p, of "w # post"]
    have "retrieve_loop env keys c m (pre @ w # post) s =
            (Inl (IncorrectCFragReceived (collect_evidence c cf (wo_ursula w))), s0)"
      by simp
    with retrieve_loop_ran_through [OF p] eff
    show "\<exists>s'. retrieve_loop env keys c m (pre @ w # post) s =
               (Inl (IncorrectCFragReceived
                  \<lparr>evidence_capsule = c, evidence_cfrag = cf,
                   evidence_ursula = wo_ursula w\<rparr>), s') \<and>
         reencrypt_calls s' = reencrypt_calls s @ pre @ [w] \<and>
         attached_cfrags s' = attached_cfrags s1"
      by (simp add: collect_evidence_def)
  qed
  have evidence: "retrieve env learning b kit pk vk label =
      (Inl (IncorrectCFragReceived ev), b') \<longrightarrow>
      (\<exists>v bad rest.
         reencrypt_calls b' \<noteq> [] \<and> last (reencrypt_calls b') = v \<and>
         reencrypt env v = Inr (bad # rest) \<and>
         \<not> cfrag_is_correct env (pk, decrypting_key b, vk) (kit_capsule kit) bad \<and>
         ev = \<lparr>evidence_capsule = kit_capsule kit, evidence_cfrag = bad,
               evidence_ursula = wo_ursula v\<rparr>)"
  proof
    assume "retrieve env learning b kit pk vk label = (Inl (IncorrectCFragReceived ev), b')"
    from retrieve_incorrect_from_loop [OF this] obtain n wos b2 where
      "retrieve_loop env (pk, decrypting_key b, vk) (kit_capsule kit) n wos b2 =
         (Inl (IncorrectCFragReceived ev), b')"
      by blast
    from retrieve_loop_incorrect [OF this] obtain ps v bad rest where
      "reencrypt env v = Inr (bad # rest)"
      "\<not> cfrag_is_correct env (pk, decrypting_key b, vk) (kit_capsule kit) bad"
      "ev = collect_evidence (kit_capsule kit) bad (wo_ursula v)"
      "reencrypt_calls b' = reencrypt_calls b2 @ ps @ [v]"
      by blast
    then show "\<exists>v bad rest.
         reencrypt_calls b' \<noteq> [] \<and> last (reencrypt_calls b') = v \<and>
         reencrypt env v = Inr (bad # rest) \<and>
         \<not> cfrag_is_correct env (pk, decrypting_key b, vk) (kit_capsule kit) bad \<and>
         ev = \<lparr>evidence_capsule = kit_capsule kit, evidence_cfrag = bad,
               evidence_ursula = wo_ursula v\<rparr>"
      by (simp add: collect_evidence_def)
  qed
  from halts evidence show ?thesis by blast
qed


theorem retrieve_halts_on_incorrect_cfrag_witness:
  "fst (retrieve ex_retrieval_env [] (ex_retrieval_bob (ex_retrieval_map [0] 2)) ex_kit
          [7] [2] [3]) =
     Inl (IncorrectCFragReceived
            \<lparr>evidence_capsule = ex_c1, evidence_cfrag = CFrag [0],
             evidence_ursula = ex_ursula ''0xC''\<rparr>) \<and>
   last (reencrypt_calls (snd (retrieve ex_retrieval_env []
          (ex_retrieval_bob (ex_retrieval_map [0] 2)) ex_kit [7] [2] [3]))) =
     ex_work_order ''0xC'' [0] \<and>
   \<not> cfrag_is_correct ex_retrieval_env ([7], [6], [2]) ex_c1 (CFrag [0])"
proof -
  let ?r = "retrieve ex_retrieval_env [] (ex_retrieval_bob (ex_retrieval_map [0] 2)) ex_kit
              [7] [2] [3]"
  let ?ev = "\<lparr>evidence_capsule = ex_c1, evidence_cfrag = CFrag [0],
              evidence_ursula = ex_ursula ''0xC''\<rparr>"
  from ex_retrieve_incorrect have run: "?r = (Inl (IncorrectCFragReceived ?ev), snd ?r)"
    by (simp add: prod_eq_iff)
  from retrieve_halts_on_incorrect_cfrag
         [where env = ex_retrieval_env and learning = "[]"
            and b = "ex_retrieval_bob (ex_retrieval_map [0] 2)" and kit = ex_kit
            and pk = "[7]" and vk = "[2]" and label = "[3]" and ev = ?ev and b' = "snd ?r"]
    run
  have "\<exists>v bad rest.
         reencrypt_calls (snd ?r) \<noteq> [] \<and> last (reencrypt_calls (snd ?r)) = v \<and>
         reencrypt ex_retrieval_env v = Inr (bad # rest) \<and>
         \<not> cfrag_is_correct ex_retrieval_env
             ([7], decrypting_key (ex_retrieval_bob (ex_retrieval_map [0] 2)), [2])
             (kit_capsule ex_kit) bad \<and>
         ?ev = \<lparr>evidence_capsule = kit_capsule ex_kit, evidence_cfrag = bad,
                evidence_ursula = wo_ursula v\<rparr>"
    by blast
  then have "\<not> cfrag_is_correct ex_retrieval_env ([7], [6], [2]) ex_c1 (CFrag [0])"
    by (auto simp: ex_retrieval_bob_def ex_kit_def)
  with ex_retrieve_incorrect show ?thesis by simp
qed

end
